theory Spec2Isabelle
  imports Main "HOL-Library.Word"
begin

unbundle bit_operations_syntax

section \<open>The Pico SDK as seen by the driver\<close>

type_synonym u8 = "8 word"
type_synonym u16 = "16 word"
type_synonym u32 = "32 word"

datatype gpio_dir = GPIO_IN | GPIO_OUT

text \<open>
  Every call into the SDK is recorded, oldest first. The SDK itself is not part of the
  repository, so its calls are kept uninterpreted: \<open>GpioPut p v\<close> is \<open>gpio_put(p, v)\<close>,
  \<open>GpioGet p v\<close> is a call \<open>gpio_get(p)\<close> that returned \<open>v\<close>.
\<close>

datatype gpio_event =
    GpioInit u8
  | GpioSetDir u8 gpio_dir
  | GpioPut u8 bool
  | GpioGet u8 bool
  | SleepUs nat

text \<open>
  \<open>data_in k\<close> is the level that the \<open>k\<close>-th call of \<open>gpio_get\<close> finds on the line
  (counted from 0 over the whole run); \<open>samples\<close> counts the calls made so far.
\<close>

record pico =
  trace :: "gpio_event list"
  data_in :: "nat \<Rightarrow> bool"
  samples :: nat

definition gpio_init :: "u8 \<Rightarrow> pico \<Rightarrow> pico" where
  "gpio_init gpio h = h\<lparr>trace := trace h @ [GpioInit gpio]\<rparr>"

definition gpio_set_dir :: "u8 \<Rightarrow> gpio_dir \<Rightarrow> pico \<Rightarrow> pico" where
  "gpio_set_dir gpio out h = h\<lparr>trace := trace h @ [GpioSetDir gpio out]\<rparr>"

definition gpio_put :: "u8 \<Rightarrow> bool \<Rightarrow> pico \<Rightarrow> pico" where
  "gpio_put gpio v h = h\<lparr>trace := trace h @ [GpioPut gpio v]\<rparr>"

definition sleep_us :: "nat \<Rightarrow> pico \<Rightarrow> pico" where
  "sleep_us us h = h\<lparr>trace := trace h @ [SleepUs us]\<rparr>"

definition gpio_get :: "u8 \<Rightarrow> pico \<Rightarrow> bool \<times> pico" where
  "gpio_get gpio h =
     (let v = data_in h (samples h)
      in (v, h\<lparr>trace := trace h @ [GpioGet gpio v], samples := Suc (samples h)\<rparr>))"

section \<open>ShiftRegister.c\<close>

definition SHIFTREGISTER_CLOCKDELAY_US :: u16 where "SHIFTREGISTER_CLOCKDELAY_US = 5"
definition SHIFTREGISTER_LATCHDELAY_US :: u16 where "SHIFTREGISTER_LATCHDELAY_US = 5"
definition SHIFTREGISTER_INPUT :: u8 where "SHIFTREGISTER_INPUT = 0"
definition SHIFTREGISTER_OUTPUT :: u8 where "SHIFTREGISTER_OUTPUT = 1"
definition SHIFTREGISTER_HYBRID :: u8 where "SHIFTREGISTER_HYBRID = 2"
definition MAX_SIZEINOCTETS :: nat where "MAX_SIZEINOCTETS = 4"

record ShiftRegister =
  Type :: u8
  ClockGPIO :: u8
  DataInGPIO :: u8
  DataOutGPIO :: u8
  LatchGPIO :: u8
  SizeInOctets :: u8
  ClockDelayUS :: u16
  LatchDelayUS :: u16
  InputBuffer :: u32
  OutputBuffer :: u32
  InvertOutput :: bool

text \<open>
  A function taking \<open>ShiftRegister *Register\<close> takes the struct and the SDK state and
  returns both. The result is an option: \<open>None\<close> stands for a call with no defined
  result, which here is either a shift by a count outside \<open>0..31\<close> or a loop that never
  exits.
\<close>

definition ShiftRegisterPulseLatch :: "ShiftRegister \<Rightarrow> pico \<Rightarrow> ShiftRegister \<times> pico" where
  "ShiftRegisterPulseLatch Register h =
     (let h1 = gpio_put (LatchGPIO Register) True h;
          h2 = sleep_us (unat (LatchDelayUS Register)) h1;
          h3 = gpio_put (LatchGPIO Register) False h2
      in (Register, h3))"

definition ShiftRegisterPulseClock :: "ShiftRegister \<Rightarrow> pico \<Rightarrow> ShiftRegister \<times> pico" where
  "ShiftRegisterPulseClock Register h =
     (let h1 = gpio_put (ClockGPIO Register) True h;
          h2 = sleep_us (unat (ClockDelayUS Register)) h1;
          h3 = gpio_put (ClockGPIO Register) False h2;
          h4 = sleep_us (unat (ClockDelayUS Register)) h3
      in (Register, h4))"

text \<open>
  \<open>1 << k\<close> on \<open>int\<close>, stored in a \<open>uint32_t\<close>. The count must lie in \<open>0..31\<close>; the
  compiler of the SDK (GCC) defines \<open>1 << 31\<close> as the sign bit, which converts to
  \<open>0x80000000\<close>.
\<close>

definition shl1 :: "int \<Rightarrow> u32 option" where
  "shl1 k = (if 0 \<le> k \<and> k < 32 then Some (push_bit (nat k) 1) else None)"

text \<open>
  The loop of \<open>ShiftRegisterWrite\<close>, entered with \<open>counter\<close> and \<open>WriteMask\<close>. In all
  five loops of the file the counter is a \<open>uint8_t\<close>, compared as an \<open>int\<close> with
  \<open>SizeInOctets * 8\<close>: from 32 octets on it wraps around before it reaches the bound.
\<close>

partial_function (option) write_loop ::
  "u8 \<Rightarrow> u32 \<Rightarrow> ShiftRegister \<Rightarrow> pico \<Rightarrow> (ShiftRegister \<times> pico) option" where
  "write_loop counter WriteMask Register h =
     (if unat counter < unat (SizeInOctets Register) * 8 then
        let h1 = (if InvertOutput Register = False
                  then gpio_put (DataOutGPIO Register)
                         (if 0 < (WriteMask AND OutputBuffer Register) then True else False) h
                  else gpio_put (DataOutGPIO Register)
                         (if 0 < (WriteMask AND OutputBuffer Register) then False else True) h);
            (Register2, h2) = ShiftRegisterPulseClock Register h1
        in write_loop (counter + 1) (drop_bit 1 WriteMask) Register2 h2
      else Some (Register, h))"

definition ShiftRegisterWrite :: "ShiftRegister \<Rightarrow> pico \<Rightarrow> (ShiftRegister \<times> pico) option" where
  "ShiftRegisterWrite Register h =
     (case shl1 (int (unat (SizeInOctets Register)) * 8 - 1) of
        None \<Rightarrow> None
      | Some WriteMask \<Rightarrow>
          (case write_loop 0 WriteMask Register h of
             None \<Rightarrow> None
           | Some (Register2, h2) \<Rightarrow> Some (ShiftRegisterPulseLatch Register2 h2)))"

text \<open>The loop of \<open>ShiftRegisterRead\<close>.\<close>

partial_function (option) read_loop ::
  "u8 \<Rightarrow> ShiftRegister \<Rightarrow> pico \<Rightarrow> (ShiftRegister \<times> pico) option" where
  "read_loop counter Register h =
     (if unat counter < unat (SizeInOctets Register) * 8 then
        let Register1 = Register\<lparr>InputBuffer := push_bit 1 (InputBuffer Register)\<rparr>;
            (v, h1) = gpio_get (DataInGPIO Register1) h;
            Register2 = Register1\<lparr>InputBuffer := InputBuffer Register1 + (if v then 1 else 0)\<rparr>;
            (Register3, h3) = ShiftRegisterPulseClock Register2 h1
        in read_loop (counter + 1) Register3 h3
      else Some (Register, h))"

definition ShiftRegisterRead :: "ShiftRegister \<Rightarrow> pico \<Rightarrow> (ShiftRegister \<times> pico) option" where
  "ShiftRegisterRead Register h =
     (let Register1 = Register\<lparr>InputBuffer := 0\<rparr>;
          h1 = gpio_put (LatchGPIO Register1) True h
      in case read_loop 0 Register1 h1 of
           None \<Rightarrow> None
         | Some (Register2, h2) \<Rightarrow> Some (Register2, gpio_put (LatchGPIO Register2) False h2))"

text \<open>
  The first loop of \<open>ShiftRegisterReadWrite\<close>; it shifts the mask before the clock pulse.
\<close>

partial_function (option) readwrite_out_loop ::
  "u8 \<Rightarrow> u32 \<Rightarrow> ShiftRegister \<Rightarrow> pico \<Rightarrow> (ShiftRegister \<times> pico) option" where
  "readwrite_out_loop counter WriteMask Register h =
     (if unat counter < unat (SizeInOctets Register) * 8 then
        let h1 = (if InvertOutput Register = False
                  then gpio_put (DataOutGPIO Register)
                         (if 0 < (WriteMask AND OutputBuffer Register) then True else False) h
                  else gpio_put (DataOutGPIO Register)
                         (if 0 < (WriteMask AND OutputBuffer Register) then False else True) h);
            WriteMask1 = drop_bit 1 WriteMask;
            (Register2, h2) = ShiftRegisterPulseClock Register h1
        in readwrite_out_loop (counter + 1) WriteMask1 Register2 h2
      else Some (Register, h))"

text \<open>The second loop of \<open>ShiftRegisterReadWrite\<close>.\<close>

partial_function (option) readwrite_in_loop ::
  "u8 \<Rightarrow> ShiftRegister \<Rightarrow> pico \<Rightarrow> (ShiftRegister \<times> pico) option" where
  "readwrite_in_loop counter Register h =
     (if unat counter < unat (SizeInOctets Register) * 8 then
        let Register1 = Register\<lparr>InputBuffer := push_bit 1 (InputBuffer Register)\<rparr>;
            (v, h1) = gpio_get (DataInGPIO Register1) h;
            Register2 = Register1\<lparr>InputBuffer := InputBuffer Register1 + (if v then 1 else 0)\<rparr>;
            (Register3, h3) = ShiftRegisterPulseClock Register2 h1
        in readwrite_in_loop (counter + 1) Register3 h3
      else Some (Register, h))"

text \<open>
  The mask is computed a second time before the second loop, which never reads it; the
  count is the one of the first computation, so it adds no outcome.
\<close>

definition ShiftRegisterReadWrite :: "ShiftRegister \<Rightarrow> pico \<Rightarrow> (ShiftRegister \<times> pico) option" where
  "ShiftRegisterReadWrite Register h =
     (case shl1 (int (unat (SizeInOctets Register)) * 8 - 1) of
        None \<Rightarrow> None
      | Some WriteMask \<Rightarrow>
          (case readwrite_out_loop 0 WriteMask Register h of
             None \<Rightarrow> None
           | Some (Register1, h1) \<Rightarrow>
               let h2 = gpio_put (LatchGPIO Register1) True h1;
                   Register2 = Register1\<lparr>InputBuffer := 0\<rparr>
               in (case shl1 (int (unat (SizeInOctets Register2)) * 8 - 1) of
                     None \<Rightarrow> None
                   | Some WriteMask2 \<Rightarrow>
                       (case readwrite_in_loop 0 Register2 h2 of
                          None \<Rightarrow> None
                        | Some (Register3, h3) \<Rightarrow>
                            Some (Register3, gpio_put (LatchGPIO Register3) False h3)))))"

text \<open>The loop of \<open>ShiftRegisterFill\<close>.\<close>

partial_function (option) fill_loop ::
  "u8 \<Rightarrow> u8 \<Rightarrow> ShiftRegister \<Rightarrow> pico \<Rightarrow> (ShiftRegister \<times> pico) option" where
  "fill_loop counter FillValue Register h =
     (if unat counter < unat (SizeInOctets Register) * 8 then
        let h1 = gpio_put (DataOutGPIO Register) (if FillValue = 0 then False else True) h;
            (Register2, h2) = ShiftRegisterPulseClock Register h1
        in fill_loop (counter + 1) FillValue Register2 h2
      else Some (Register, h))"

definition ShiftRegisterFill :: "ShiftRegister \<Rightarrow> u8 \<Rightarrow> pico \<Rightarrow> (ShiftRegister \<times> pico) option" where
  "ShiftRegisterFill Register FillValue h =
     (case fill_loop 0 FillValue Register h of
        None \<Rightarrow> None
      | Some (Register2, h2) \<Rightarrow> Some (ShiftRegisterPulseLatch Register2 h2))"

text \<open>The \<open>switch\<close> has no default: any other type falls through to the end.\<close>

definition ShiftRegisterUpdate :: "ShiftRegister \<Rightarrow> pico \<Rightarrow> (ShiftRegister \<times> pico) option" where
  "ShiftRegisterUpdate Register h =
     (if Type Register = SHIFTREGISTER_INPUT then ShiftRegisterRead Register h
      else if Type Register = SHIFTREGISTER_OUTPUT then ShiftRegisterWrite Register h
      else if Type Register = SHIFTREGISTER_HYBRID then ShiftRegisterReadWrite Register h
      else Some (Register, h))"

text \<open>
  \<open>ShiftRegisterCreate\<close> returns a pointer: \<open>None\<close> inside the result is \<open>NULL\<close>,
  \<open>Some r\<close> the freshly allocated struct. The allocation itself is taken to succeed
  (the source does not test it).
\<close>

definition ShiftRegisterCreate ::
  "u8 \<Rightarrow> u8 \<Rightarrow> u8 \<Rightarrow> u8 \<Rightarrow> u8 \<Rightarrow> u32 \<Rightarrow> u8 \<Rightarrow> pico \<Rightarrow> (ShiftRegister option \<times> pico) option" where
  "ShiftRegisterCreate Type' ClockGPIO' DataInGPIO' DataOutGPIO' LatchGPIO' InitialValue SizeInOctets' h =
     (if MAX_SIZEINOCTETS < unat SizeInOctets' then Some (None, h)
      else
        let h1 = gpio_init ClockGPIO' h;
            h2 = gpio_set_dir ClockGPIO' GPIO_OUT h1;
            h3 = (if DataInGPIO' \<noteq> 0
                  then gpio_set_dir DataInGPIO' GPIO_IN (gpio_init DataInGPIO' h2)
                  else h2);
            h4 = (if DataOutGPIO' \<noteq> 0
                  then gpio_put DataOutGPIO' False
                         (gpio_set_dir DataOutGPIO' GPIO_OUT (gpio_init DataOutGPIO' h3))
                  else h3);
            h5 = gpio_init LatchGPIO' h4;
            h6 = gpio_set_dir LatchGPIO' GPIO_OUT h5;
            h7 = gpio_put LatchGPIO' False h6;
            Register = \<lparr>Type = Type', ClockGPIO = ClockGPIO', DataInGPIO = DataInGPIO',
                        DataOutGPIO = DataOutGPIO', LatchGPIO = LatchGPIO',
                        SizeInOctets = SizeInOctets',
                        ClockDelayUS = SHIFTREGISTER_CLOCKDELAY_US,
                        LatchDelayUS = SHIFTREGISTER_LATCHDELAY_US,
                        InputBuffer = 0, OutputBuffer = InitialValue, InvertOutput = False\<rparr>
        in case ShiftRegisterUpdate Register h7 of
             None \<Rightarrow> None
           | Some (Register', h8) \<Rightarrow> Some (Some Register', h8))"

section \<open>GameController.c\<close>

definition GC8BIT_DELAY :: u16 where "GC8BIT_DELAY = 1"

definition GC8BitPoll :: "ShiftRegister \<Rightarrow> pico \<Rightarrow> (u8 \<times> ShiftRegister \<times> pico) option" where
  "GC8BitPoll Controller h =
     (case ShiftRegisterUpdate Controller h of
        None \<Rightarrow> None
      | Some (Controller', h') \<Rightarrow> Some (ucast (InputBuffer Controller'), Controller', h'))"

text \<open>
  \<open>GC8BitInit\<close> writes through the pointer it got without testing it; a \<open>NULL\<close> there
  would leave the call without a defined result.
\<close>

definition GC8BitInit :: "u8 \<Rightarrow> u8 \<Rightarrow> u8 \<Rightarrow> pico \<Rightarrow> (ShiftRegister \<times> pico) option" where
  "GC8BitInit ClockGPIO' DataInGPIO' LatchGPIO' h =
     (case ShiftRegisterCreate SHIFTREGISTER_INPUT ClockGPIO' DataInGPIO' 0 LatchGPIO' 0 1 h of
        None \<Rightarrow> None
      | Some (None, h') \<Rightarrow> None
      | Some (Some Controller, h') \<Rightarrow>
          let Controller1 = Controller\<lparr>ClockDelayUS := GC8BIT_DELAY\<rparr>;
              Controller2 = Controller1\<lparr>LatchDelayUS := GC8BIT_DELAY\<rparr>
          in Some (Controller2, h'))"

section \<open>Notions used to state the properties\<close>

text \<open>The events of one clock pulse and of one latch pulse of a register.\<close>

definition clock_pulse :: "ShiftRegister \<Rightarrow> gpio_event list" where
  "clock_pulse r =
     [GpioPut (ClockGPIO r) True, SleepUs (unat (ClockDelayUS r)),
      GpioPut (ClockGPIO r) False, SleepUs (unat (ClockDelayUS r))]"

definition latch_pulse :: "ShiftRegister \<Rightarrow> gpio_event list" where
  "latch_pulse r =
     [GpioPut (LatchGPIO r) True, SleepUs (unat (LatchDelayUS r)), GpioPut (LatchGPIO r) False]"

text \<open>
  \<open>emit es h\<close>: the SDK state after the calls \<open>es\<close>, none of them a \<open>gpio_get\<close>;
  \<open>took es k h\<close>: the same when \<open>k\<close> of the calls were \<open>gpio_get\<close>.
\<close>

definition emit :: "gpio_event list \<Rightarrow> pico \<Rightarrow> pico" where
  "emit es h = h\<lparr>trace := trace h @ es\<rparr>"

definition took :: "gpio_event list \<Rightarrow> nat \<Rightarrow> pico \<Rightarrow> pico" where
  "took es k h = h\<lparr>trace := trace h @ es, samples := samples h + k\<rparr>"

text \<open>\<open>sampled h i\<close>: the level that the \<open>i\<close>-th \<open>gpio_get\<close> from state \<open>h\<close> on will find.\<close>

definition sampled :: "pico \<Rightarrow> nat \<Rightarrow> bool" where
  "sampled h i = data_in h (samples h + i)"

definition bits_of :: "ShiftRegister \<Rightarrow> nat" where
  "bits_of r = unat (SizeInOctets r) * 8"

text \<open>
  The drive-then-clock steps for the bits of \<open>OutputBuffer\<close>, position \<open>bits_of r - 1\<close>
  first, and the sample-then-clock steps for \<open>bits_of r\<close> samples.
\<close>

definition out_steps :: "ShiftRegister \<Rightarrow> gpio_event list" where
  "out_steps r =
     concat (map (\<lambda>i. GpioPut (DataOutGPIO r) (bit (OutputBuffer r) i \<noteq> InvertOutput r) # clock_pulse r)
                 (rev [0..<bits_of r]))"

definition in_steps :: "ShiftRegister \<Rightarrow> pico \<Rightarrow> gpio_event list" where
  "in_steps r h =
     concat (map (\<lambda>i. GpioGet (DataInGPIO r) (sampled h i) # clock_pulse r) [0..<bits_of r])"

text \<open>The number whose binary digits, most significant first, are \<open>b 0, \<dots>, b (n - 1)\<close>.\<close>

definition msb_first_value :: "(nat \<Rightarrow> bool) \<Rightarrow> nat \<Rightarrow> nat" where
  "msb_first_value b n = (\<Sum>i<n. (if b i then 1 else 0) * 2 ^ (n - 1 - i))"

text \<open>The levels written to one pin, in order.\<close>

fun driven :: "u8 \<Rightarrow> gpio_event list \<Rightarrow> bool list" where
  "driven p [] = []"
| "driven p (GpioPut q v # es) = (if q = p then v # driven p es else driven p es)"
| "driven p (e # es) = driven p es"

text \<open>The calls \<open>ShiftRegisterCreate\<close> makes before it allocates, and the struct it fills in.\<close>

definition create_setup :: "u8 \<Rightarrow> u8 \<Rightarrow> u8 \<Rightarrow> u8 \<Rightarrow> gpio_event list" where
  "create_setup clock din dout latch =
     [GpioInit clock, GpioSetDir clock GPIO_OUT]
     @ (if din \<noteq> 0 then [GpioInit din, GpioSetDir din GPIO_IN] else [])
     @ (if dout \<noteq> 0 then [GpioInit dout, GpioSetDir dout GPIO_OUT, GpioPut dout False] else [])
     @ [GpioInit latch, GpioSetDir latch GPIO_OUT, GpioPut latch False]"

definition create_fields :: "u8 \<Rightarrow> u8 \<Rightarrow> u8 \<Rightarrow> u8 \<Rightarrow> u8 \<Rightarrow> u32 \<Rightarrow> u8 \<Rightarrow> ShiftRegister" where
  "create_fields t clock din dout latch v w =
     \<lparr>Type = t, ClockGPIO = clock, DataInGPIO = din, DataOutGPIO = dout, LatchGPIO = latch,
      SizeInOctets = w, ClockDelayUS = 5, LatchDelayUS = 5,
      InputBuffer = 0, OutputBuffer = v, InvertOutput = False\<rparr>"

text \<open>An SDK state with nothing recorded yet and a data-in line that reads low.\<close>

definition quiet :: pico where
  "quiet = \<lparr>trace = [], data_in = (\<lambda>k. False), samples = 0\<rparr>"

text \<open>
  Two more SDK states for concrete runs: a data-in line that reads high, low, high, \<open>\<dots>\<close>,
  and one that reads the bits of \<open>0xA5\<close>, most significant first.
\<close>

definition toggling :: pico where
  "toggling = \<lparr>trace = [], data_in = (\<lambda>k. even k), samples = 0\<rparr>"

definition fed_A5 :: pico where
  "fed_A5 = \<lparr>trace = [], data_in = (\<lambda>k. k \<in> {0, 2, 5, 7}), samples = 0\<rparr>"

text \<open>Inside the proofs: the level \<open>ShiftRegisterWrite\<close> drives for a mask, the buffer after samples.\<close>

definition out_level :: "ShiftRegister \<Rightarrow> u32 \<Rightarrow> bool" where
  "out_level r m = ((0 < (m AND OutputBuffer r)) \<noteq> InvertOutput r)"

definition shift_in :: "u32 \<Rightarrow> bool list \<Rightarrow> u32" where
  "shift_in = foldl (\<lambda>x b. push_bit 1 x + (if b then 1 else 0))"

section \<open>The pulses and the loops in closed form\<close>

lemma emit_emit: "emit es (emit ds h) = emit (ds @ es) h"
  by (simp add: emit_def)

lemma emit_Nil: "emit [] h = h"
  by (simp add: emit_def)

lemma gpio_put_emit: "gpio_put p v h = emit [GpioPut p v] h"
  by (simp add: gpio_put_def emit_def)

lemma PulseClock_emit: "ShiftRegisterPulseClock r h = (r, emit (clock_pulse r) h)"
  by (simp add: ShiftRegisterPulseClock_def clock_pulse_def emit_def gpio_put_def sleep_us_def)

lemma PulseLatch_emit: "ShiftRegisterPulseLatch r h = (r, emit (latch_pulse r) h)"
  by (simp add: ShiftRegisterPulseLatch_def latch_pulse_def emit_def gpio_put_def sleep_us_def)

lemma unat_counter_Suc: "unat (c :: u8) < 255 \<Longrightarrow> unat (c + 1) = Suc (unat c)"
  using unat_add_lem [of c 1] by simp

lemma write_loop_run:
  "unat (SizeInOctets r) * 8 \<le> 255 \<Longrightarrow> unat c + j = unat (SizeInOctets r) * 8 \<Longrightarrow>
   write_loop c m r h =
     Some (r, emit (concat (map (\<lambda>i. GpioPut (DataOutGPIO r) (out_level r (drop_bit i m)) # clock_pulse r) [0..<j])) h)"
proof (induction j arbitrary: c m h)
  case 0
  then show ?case
    by (subst write_loop.simps) (simp add: emit_Nil)
next
  case (Suc j)
  from Suc.prems have lt: "unat c < unat (SizeInOctets r) * 8" and c255: "unat c < 255"
    by simp_all
  have nxt: "unat (c + 1) + j = unat (SizeInOctets r) * 8"
    using Suc.prems c255 by (simp add: unat_counter_Suc)
  show ?case
    apply (subst write_loop.simps)
    apply (simp add: lt PulseClock_emit gpio_put_emit emit_emit Suc.IH [OF Suc.prems(1) nxt]
        map_upt_Suc out_level_def del: upt_Suc)
    done
qed

lemma shift_in_Cons: "shift_in x (b # bs) = shift_in (push_bit 1 x + (if b then 1 else 0)) bs"
  by (simp add: shift_in_def)

lemma shift_in_Nil: "shift_in x [] = x"
  by (simp add: shift_in_def)

lemma gpio_get_took: "gpio_get p h = (sampled h 0, took [GpioGet p (sampled h 0)] 1 h)"
  by (simp add: gpio_get_def sampled_def took_def Let_def)

lemma emit_took: "emit es (took ds k h) = took (ds @ es) k h"
  by (simp add: emit_def took_def)

lemma took_took: "took es k (took ds j h) = took (ds @ es) (j + k) h"
  by (simp add: took_def)

lemma took_0: "took [] 0 h = h"
  by (simp add: took_def)

lemma sampled_took: "sampled (took es k h) = (\<lambda>i. sampled h (k + i))"
  by (rule ext) (simp add: sampled_def took_def add.assoc)

lemma read_loop_run:
  "unat (SizeInOctets r) * 8 \<le> 255 \<Longrightarrow> unat c + j = unat (SizeInOctets r) * 8 \<Longrightarrow>
   read_loop c r h =
     Some (r\<lparr>InputBuffer := shift_in (InputBuffer r) (map (sampled h) [0..<j])\<rparr>,
           took (concat (map (\<lambda>i. GpioGet (DataInGPIO r) (sampled h i) # clock_pulse r) [0..<j])) j h)"
proof (induction j arbitrary: c r h)
  case 0
  then show ?case
    by (subst read_loop.simps) (simp add: took_0 shift_in_Nil)
next
  case (Suc j)
  from Suc.prems have lt: "unat c < unat (SizeInOctets r) * 8" and c255: "unat c < 255"
    by simp_all
  have nxt: "unat (c + 1) + j = unat (SizeInOctets r) * 8"
    using Suc.prems c255 by (simp add: unat_counter_Suc)
  define r3 where "r3 = r\<lparr>InputBuffer := push_bit 1 (InputBuffer r) + (if sampled h 0 then 1 else 0)\<rparr>"
  define h3 where "h3 = took (GpioGet (DataInGPIO r) (sampled h 0) # clock_pulse r) 1 h"
  have size3: "SizeInOctets r3 = SizeInOctets r" by (simp add: r3_def)
  have step: "read_loop c r h = read_loop (c + 1) r3 h3"
    by (subst read_loop.simps)
       (simp add: lt gpio_get_took PulseClock_emit emit_took r3_def h3_def clock_pulse_def)
  have ih: "read_loop (c + 1) r3 h3 =
     Some (r3\<lparr>InputBuffer := shift_in (InputBuffer r3) (map (sampled h3) [0..<j])\<rparr>,
           took (concat (map (\<lambda>i. GpioGet (DataInGPIO r3) (sampled h3 i) # clock_pulse r3) [0..<j])) j h3)"
    by (rule Suc.IH) (simp_all add: size3 Suc.prems(1) nxt)
  have s3: "sampled h3 i = sampled h (Suc i)" for i
    by (simp add: h3_def sampled_took)
  show ?case
    unfolding step ih
    by (simp add: s3 sampled_took map_upt_Suc shift_in_Cons r3_def h3_def took_took clock_pulse_def del: upt_Suc)
qed

lemma fill_loop_run:
  "unat (SizeInOctets r) * 8 \<le> 255 \<Longrightarrow> unat c + j = unat (SizeInOctets r) * 8 \<Longrightarrow>
   fill_loop c v r h =
     Some (r, emit (concat (replicate j (GpioPut (DataOutGPIO r) (v \<noteq> 0) # clock_pulse r))) h)"
proof (induction j arbitrary: c h)
  case 0
  then show ?case
    by (subst fill_loop.simps) (simp add: emit_Nil)
next
  case (Suc j)
  from Suc.prems have lt: "unat c < unat (SizeInOctets r) * 8" and c255: "unat c < 255"
    by simp_all
  have nxt: "unat (c + 1) + j = unat (SizeInOctets r) * 8"
    using Suc.prems c255 by (simp add: unat_counter_Suc)
  show ?case
    by (subst fill_loop.simps)
       (simp add: lt PulseClock_emit gpio_put_emit emit_emit Suc.IH [OF Suc.prems(1) nxt])
qed

lemma mask_bit: "(0 < ((2 :: u32) ^ k AND V)) = bit V k"
  by (simp add: word_gt_0 and.commute and_exp_eq_0_iff_not_bit) 

lemma drop_mask: "i \<le> k \<Longrightarrow> k < 32 \<Longrightarrow> drop_bit i ((2 :: u32) ^ k) = 2 ^ (k - i)"
  by (simp add: drop_bit_exp_eq)

lemma rev_upt_0: "rev [0..<n] = map (\<lambda>i. n - Suc i) [0..<n]"
  by (rule nth_equalityI) (simp_all add: rev_nth)

lemma msb_first_value_Suc:
  "msb_first_value b (Suc n) = 2 * msb_first_value b n + (if b n then 1 else 0)"
proof -
  have "(\<Sum>i<n. (if b i then 1 else 0) * 2 ^ (Suc n - 1 - i)) =
        (\<Sum>i<n. 2 * ((if b i then 1 else (0::nat)) * 2 ^ (n - 1 - i)))"
  proof (rule sum.cong)
    fix i assume "i \<in> {..<n}"
    then have "Suc n - 1 - i = Suc (n - 1 - i)" by auto
    then show "(if b i then 1 else 0) * 2 ^ (Suc n - 1 - i) =
               2 * ((if b i then 1 else (0::nat)) * 2 ^ (n - 1 - i))"
      by simp
  qed simp
  then show ?thesis
    by (simp add: msb_first_value_def sum_distrib_left)
qed

lemma msb_first_value_0: "msb_first_value b 0 = 0"
  by (simp add: msb_first_value_def)

lemma msb_first_value_less: "msb_first_value b n < 2 ^ n"
  by (induction n) (simp_all add: msb_first_value_0 msb_first_value_Suc)

lemma bit_msb_first_value: "bit (msb_first_value b n) j \<longleftrightarrow> j < n \<and> b (n - 1 - j)"
proof (induction n arbitrary: j)
  case 0
  then show ?case by (simp add: msb_first_value_0)
next
  case (Suc n)
  show ?case
  proof (cases j)
    case 0
    then show ?thesis by (simp add: msb_first_value_Suc bit_0)
  next
    case (Suc k)
    then show ?thesis
      using Suc.IH [of k] by (simp add: msb_first_value_Suc bit_Suc)
  qed
qed

lemma shift_in_snoc: "shift_in x (bs @ [b]) = push_bit 1 (shift_in x bs) + (if b then 1 else 0)"
  by (simp add: shift_in_def)

lemma shift_in_value: "shift_in 0 (map b [0..<n]) = word_of_nat (msb_first_value b n)"
  by (induction n) (simp_all add: shift_in_Nil shift_in_snoc msb_first_value_0 msb_first_value_Suc)

lemma unat_msb_first_value:
  "n \<le> 32 \<Longrightarrow> unat (word_of_nat (msb_first_value b n) :: u32) = msb_first_value b n"
proof -
  assume "n \<le> 32"
  then have "(2::nat) ^ n \<le> 2 ^ 32" by (rule power_increasing) simp
  with msb_first_value_less [of b n] have "msb_first_value b n < 2 ^ 32" by simp
  then show ?thesis by (simp add: unat_of_nat)
qed

lemma bit_word_msb_first_value:
  "n \<le> 32 \<Longrightarrow> bit (word_of_nat (msb_first_value b n) :: u32) j \<longleftrightarrow> j < n \<and> b (n - 1 - j)"
  by (auto simp add: bit_of_nat_iff bit_msb_first_value)

lemma shl1_nat: "1 \<le> n \<Longrightarrow> n \<le> 4 \<Longrightarrow> shl1 (int n * 8 - 1) = Some (2 ^ (n * 8 - 1))"
proof -
  assume a: "1 \<le> n" "n \<le> 4"
  then have "nat (int n * 8 - 1) = n * 8 - 1" by arith
  with a show ?thesis by (simp add: shl1_def)
qed

lemma shl1_width:
  "1 \<le> unat (w :: u8) \<Longrightarrow> unat w \<le> 4 \<Longrightarrow> shl1 (int (unat w) * 8 - 1) = Some (2 ^ (unat w * 8 - 1))"
  by (rule shl1_nat)

lemma sampled_emit: "sampled (emit es h) = sampled h"
  by (rule ext) (simp add: sampled_def emit_def)

lemma took_emit: "took es k (emit ds h) = took (ds @ es) k h"
  by (simp add: took_def emit_def)

lemma clock_pulse_InputBuffer [simp]: "clock_pulse (r\<lparr>InputBuffer := x\<rparr>) = clock_pulse r"
  by (simp add: clock_pulse_def)

lemma bits_of_InputBuffer [simp]: "bits_of (r\<lparr>InputBuffer := x\<rparr>) = bits_of r"
  by (simp add: bits_of_def)

lemma out_steps_mask:
  assumes "1 \<le> unat (SizeInOctets r)" "unat (SizeInOctets r) \<le> 4"
  shows "concat (map (\<lambda>i. GpioPut (DataOutGPIO r) (out_level r (drop_bit i (2 ^ (bits_of r - 1)))) # clock_pulse r)
                     [0..<bits_of r]) = out_steps r"
proof -
  have lvl: "out_level r (drop_bit i (2 ^ (bits_of r - 1))) = (bit (OutputBuffer r) (bits_of r - Suc i) \<noteq> InvertOutput r)"
    if "i < bits_of r" for i
  proof -
    from that assms have "i \<le> bits_of r - 1" "bits_of r - 1 < 32"
      by (simp_all add: bits_of_def)
    then show ?thesis
      by (simp add: drop_mask out_level_def mask_bit)
  qed
  have eq: "map (\<lambda>i. GpioPut (DataOutGPIO r) (out_level r (drop_bit i (2 ^ (bits_of r - 1)))) # clock_pulse r)
                [0..<bits_of r] =
            map ((\<lambda>i. GpioPut (DataOutGPIO r) (bit (OutputBuffer r) i \<noteq> InvertOutput r) # clock_pulse r)
                   \<circ> (\<lambda>i. bits_of r - Suc i)) [0..<bits_of r]"
    by (rule map_cong [OF refl]) (use lvl in simp)
  show ?thesis
    by (simp only: out_steps_def rev_upt_0 map_map eq)
qed

lemma ShiftRegisterWrite_run:
  assumes "1 \<le> unat (SizeInOctets r)" "unat (SizeInOctets r) \<le> 4"
  shows "ShiftRegisterWrite r h = Some (r, emit (out_steps r @ latch_pulse r) h)"
proof -
  have le: "unat (SizeInOctets r) * 8 \<le> 255" using assms by simp
  have "write_loop 0 (2 ^ (bits_of r - 1)) r h =
        Some (r, emit (concat (map (\<lambda>i. GpioPut (DataOutGPIO r)
                (out_level r (drop_bit i (2 ^ (bits_of r - 1)))) # clock_pulse r) [0..<bits_of r])) h)"
    by (rule write_loop_run) (simp_all add: le bits_of_def)
  then have "write_loop 0 (2 ^ (bits_of r - 1)) r h = Some (r, emit (out_steps r) h)"
    unfolding out_steps_mask [OF assms] .
  then show ?thesis
    unfolding ShiftRegisterWrite_def shl1_width [OF assms] bits_of_def [symmetric]
    by (simp add: PulseLatch_emit emit_emit)
qed

lemma readwrite_out_loop_run:
  "unat (SizeInOctets r) * 8 \<le> 255 \<Longrightarrow> unat c + j = unat (SizeInOctets r) * 8 \<Longrightarrow>
   readwrite_out_loop c m r h =
     Some (r, emit (concat (map (\<lambda>i. GpioPut (DataOutGPIO r) (out_level r (drop_bit i m)) # clock_pulse r) [0..<j])) h)"
proof (induction j arbitrary: c m h)
  case 0
  then show ?case
    by (subst readwrite_out_loop.simps) (simp add: emit_Nil)
next
  case (Suc j)
  from Suc.prems have lt: "unat c < unat (SizeInOctets r) * 8" and c255: "unat c < 255"
    by simp_all
  have nxt: "unat (c + 1) + j = unat (SizeInOctets r) * 8"
    using Suc.prems c255 by (simp add: unat_counter_Suc)
  show ?case
    by (subst readwrite_out_loop.simps)
       (simp add: lt PulseClock_emit gpio_put_emit emit_emit Suc.IH [OF Suc.prems(1) nxt]
          map_upt_Suc out_level_def del: upt_Suc)
qed

lemma readwrite_in_loop_run:
  "unat (SizeInOctets r) * 8 \<le> 255 \<Longrightarrow> unat c + j = unat (SizeInOctets r) * 8 \<Longrightarrow>
   readwrite_in_loop c r h =
     Some (r\<lparr>InputBuffer := shift_in (InputBuffer r) (map (sampled h) [0..<j])\<rparr>,
           took (concat (map (\<lambda>i. GpioGet (DataInGPIO r) (sampled h i) # clock_pulse r) [0..<j])) j h)"
proof (induction j arbitrary: c r h)
  case 0
  then show ?case
    by (subst readwrite_in_loop.simps) (simp add: took_0 shift_in_Nil)
next
  case (Suc j)
  from Suc.prems have lt: "unat c < unat (SizeInOctets r) * 8" and c255: "unat c < 255"
    by simp_all
  have nxt: "unat (c + 1) + j = unat (SizeInOctets r) * 8"
    using Suc.prems c255 by (simp add: unat_counter_Suc)
  define r3 where "r3 = r\<lparr>InputBuffer := push_bit 1 (InputBuffer r) + (if sampled h 0 then 1 else 0)\<rparr>"
  define h3 where "h3 = took (GpioGet (DataInGPIO r) (sampled h 0) # clock_pulse r) 1 h"
  have size3: "SizeInOctets r3 = SizeInOctets r" by (simp add: r3_def)
  have step: "readwrite_in_loop c r h = readwrite_in_loop (c + 1) r3 h3"
    by (subst readwrite_in_loop.simps)
       (simp add: lt gpio_get_took PulseClock_emit emit_took r3_def h3_def clock_pulse_def)
  have ih: "readwrite_in_loop (c + 1) r3 h3 =
     Some (r3\<lparr>InputBuffer := shift_in (InputBuffer r3) (map (sampled h3) [0..<j])\<rparr>,
           took (concat (map (\<lambda>i. GpioGet (DataInGPIO r3) (sampled h3 i) # clock_pulse r3) [0..<j])) j h3)"
    by (rule Suc.IH) (simp_all add: size3 Suc.prems(1) nxt)
  show ?case
    unfolding step ih
    by (simp add: sampled_took map_upt_Suc shift_in_Cons r3_def h3_def took_took clock_pulse_def del: upt_Suc)
qed

lemma ShiftRegisterRead_run:
  assumes "unat (SizeInOctets r) \<le> 31"
  shows "ShiftRegisterRead r h =
     Some (r\<lparr>InputBuffer := word_of_nat (msb_first_value (sampled h) (bits_of r))\<rparr>,
           took (GpioPut (LatchGPIO r) True # in_steps r h @ [GpioPut (LatchGPIO r) False]) (bits_of r) h)"
proof -
  have le: "unat (SizeInOctets (r\<lparr>InputBuffer := 0\<rparr>)) * 8 \<le> 255" using assms by simp
  show ?thesis
    using read_loop_run [OF le, of 0 "bits_of r" "emit [GpioPut (LatchGPIO r) True] h"]
    by (simp add: ShiftRegisterRead_def gpio_put_emit bits_of_def [symmetric] in_steps_def
        shift_in_value emit_took took_took sampled_emit took_emit)
qed

lemma ShiftRegisterReadWrite_run:
  assumes "1 \<le> unat (SizeInOctets r)" "unat (SizeInOctets r) \<le> 4"
  shows "ShiftRegisterReadWrite r h =
     Some (r\<lparr>InputBuffer := word_of_nat (msb_first_value (sampled h) (bits_of r))\<rparr>,
           took (out_steps r @ GpioPut (LatchGPIO r) True # in_steps r h @ [GpioPut (LatchGPIO r) False])
                (bits_of r) h)"
proof -
  have le: "unat (SizeInOctets r) * 8 \<le> 255" using assms by simp
  have "readwrite_out_loop 0 (2 ^ (bits_of r - 1)) r h =
        Some (r, emit (concat (map (\<lambda>i. GpioPut (DataOutGPIO r)
                (out_level r (drop_bit i (2 ^ (bits_of r - 1)))) # clock_pulse r) [0..<bits_of r])) h)"
    by (rule readwrite_out_loop_run) (simp_all add: le bits_of_def)
  then have out: "readwrite_out_loop 0 (2 ^ (bits_of r - 1)) r h = Some (r, emit (out_steps r) h)"
    unfolding out_steps_mask [OF assms] .
  have le0: "unat (SizeInOctets (r\<lparr>InputBuffer := 0\<rparr>)) * 8 \<le> 255" using assms by simp
  have inp: "readwrite_in_loop 0 (r\<lparr>InputBuffer := 0\<rparr>) (emit (out_steps r @ [GpioPut (LatchGPIO r) True]) h) =
     Some (r\<lparr>InputBuffer := word_of_nat (msb_first_value (sampled h) (bits_of r))\<rparr>,
           took (out_steps r @ GpioPut (LatchGPIO r) True # in_steps r h) (bits_of r) h)"
    using readwrite_in_loop_run [OF le0, of 0 "bits_of r" "emit (out_steps r @ [GpioPut (LatchGPIO r) True]) h"]
    by (simp add: bits_of_def [symmetric] in_steps_def shift_in_value sampled_emit took_emit)
  have sh: "shl1 (int (unat (SizeInOctets (r\<lparr>InputBuffer := 0\<rparr>))) * 8 - 1) = Some (2 ^ (bits_of r - 1))"
    using shl1_width [OF assms] by (simp add: bits_of_def)
  show ?thesis
    unfolding ShiftRegisterReadWrite_def shl1_width [OF assms] bits_of_def [symmetric]
    using out sh inp by (simp add: gpio_put_emit emit_emit emit_took)
qed

lemma ShiftRegisterFill_run:
  assumes "unat (SizeInOctets r) \<le> 31"
  shows "ShiftRegisterFill r v h =
     Some (r, emit (concat (replicate (bits_of r) (GpioPut (DataOutGPIO r) (v \<noteq> 0) # clock_pulse r))
                    @ latch_pulse r) h)"
proof -
  have le: "unat (SizeInOctets r) * 8 \<le> 255" using assms by simp
  show ?thesis
    using fill_loop_run [OF le, of 0 "bits_of r" v h]
    by (simp add: ShiftRegisterFill_def bits_of_def [symmetric] PulseLatch_emit emit_emit)
qed

lemma write_loop_frame: "write_loop c m r h = Some y \<Longrightarrow> fst y = r"
proof (induction c m r h y rule: write_loop.raw_induct [rotated, consumes 1])
  case (1 f c m r h y)
  then show ?case
    by (auto simp add: PulseClock_emit split: if_splits)
qed

lemma readwrite_out_loop_frame: "readwrite_out_loop c m r h = Some y \<Longrightarrow> fst y = r"
proof (induction c m r h y rule: readwrite_out_loop.raw_induct [rotated, consumes 1])
  case (1 f c m r h y)
  then show ?case
    by (auto simp add: PulseClock_emit Let_def split: if_splits)
qed

lemma fill_loop_frame: "fill_loop c v r h = Some y \<Longrightarrow> fst y = r"
proof (induction c v r h y rule: fill_loop.raw_induct [rotated, consumes 1])
  case (1 f c v r h y)
  then show ?case
    by (auto simp add: PulseClock_emit split: if_splits)
qed

lemma read_loop_frame: "read_loop c r h = Some y \<Longrightarrow> fst y = r\<lparr>InputBuffer := InputBuffer (fst y)\<rparr>"
proof (induction c r h y rule: read_loop.raw_induct [rotated, consumes 1])
  case (1 f c r h y)
  show ?case
  proof (cases "unat c < unat (SizeInOctets r) * 8")
    case True
    with 1(2) obtain r3 h3 where call: "f (c + 1) r3 h3 = Some y"
      and r3: "r3 = r\<lparr>InputBuffer := push_bit 1 (InputBuffer r) + (if sampled h 0 then 1 else 0)\<rparr>"
      by (simp add: gpio_get_took PulseClock_emit)
    from 1(1) [OF call] have "fst y = r3\<lparr>InputBuffer := InputBuffer (fst y)\<rparr>" .
    then show ?thesis by (simp add: r3)
  next
    case False
    with 1(2) show ?thesis by auto
  qed
qed

lemma readwrite_in_loop_frame:
  "readwrite_in_loop c r h = Some y \<Longrightarrow> fst y = r\<lparr>InputBuffer := InputBuffer (fst y)\<rparr>"
proof (induction c r h y rule: readwrite_in_loop.raw_induct [rotated, consumes 1])
  case (1 f c r h y)
  show ?case
  proof (cases "unat c < unat (SizeInOctets r) * 8")
    case True
    with 1(2) obtain r3 h3 where call: "f (c + 1) r3 h3 = Some y"
      and r3: "r3 = r\<lparr>InputBuffer := push_bit 1 (InputBuffer r) + (if sampled h 0 then 1 else 0)\<rparr>"
      by (simp add: gpio_get_took PulseClock_emit)
    from 1(1) [OF call] have "fst y = r3\<lparr>InputBuffer := InputBuffer (fst y)\<rparr>" .
    then show ?thesis by (simp add: r3)
  next
    case False
    with 1(2) show ?thesis by auto
  qed
qed

lemma ShiftRegisterWrite_frame: "ShiftRegisterWrite r h = Some (r', h') \<Longrightarrow> r' = r"
  by (auto simp add: ShiftRegisterWrite_def PulseLatch_emit split: option.splits dest: write_loop_frame)

lemma ShiftRegisterFill_frame: "ShiftRegisterFill r v h = Some (r', h') \<Longrightarrow> r' = r"
  by (auto simp add: ShiftRegisterFill_def PulseLatch_emit split: option.splits dest: fill_loop_frame)

lemma ShiftRegisterRead_frame:
  "ShiftRegisterRead r h = Some (r', h') \<Longrightarrow> r' = r\<lparr>InputBuffer := InputBuffer r'\<rparr>"
  by (auto simp add: ShiftRegisterRead_def Let_def split: option.splits dest!: read_loop_frame)

lemma ShiftRegisterReadWrite_frame:
  "ShiftRegisterReadWrite r h = Some (r', h') \<Longrightarrow> r' = r\<lparr>InputBuffer := InputBuffer r'\<rparr>"
  by (auto simp add: ShiftRegisterReadWrite_def Let_def split: option.splits
           dest!: readwrite_in_loop_frame readwrite_out_loop_frame)

section \<open>Dispatch and construction in closed form\<close>

lemma in_steps_emit: "in_steps r (emit es h) = in_steps r h"
  by (simp add: in_steps_def sampled_emit)

lemma emit_eq: "emit es h = h\<lparr>trace := trace h @ es\<rparr>"
  by (simp add: emit_def)

lemma took_eq: "took es k h = h\<lparr>trace := trace h @ es, samples := samples h + k\<rparr>"
  by (simp add: took_def)

lemma Update_input: "Type r = SHIFTREGISTER_INPUT \<Longrightarrow> ShiftRegisterUpdate r h = ShiftRegisterRead r h"
  by (simp add: ShiftRegisterUpdate_def)



lemma Update_other:
  "Type r \<noteq> SHIFTREGISTER_INPUT \<Longrightarrow> Type r \<noteq> SHIFTREGISTER_OUTPUT \<Longrightarrow> Type r \<noteq> SHIFTREGISTER_HYBRID \<Longrightarrow>
   ShiftRegisterUpdate r h = Some (r, h)"
  by (simp add: ShiftRegisterUpdate_def)

lemma Update_returns:
  assumes "1 \<le> unat (SizeInOctets r)" "unat (SizeInOctets r) \<le> 4"
  shows "\<exists>r' h'. ShiftRegisterUpdate r h = Some (r', h')"
proof -
  have "unat (SizeInOctets r) \<le> 31" using assms by simp
  then show ?thesis
    unfolding ShiftRegisterUpdate_def
    by (simp add: ShiftRegisterRead_run ShiftRegisterWrite_run [OF assms]
        ShiftRegisterReadWrite_run [OF assms])
qed

lemma Create_unfold:
  "unat w \<le> 4 \<Longrightarrow>
   ShiftRegisterCreate t c di do l v w h =
     (case ShiftRegisterUpdate (create_fields t c di do l v w) (emit (create_setup c di do l) h) of
        None \<Rightarrow> None
      | Some (r, h') \<Rightarrow> Some (Some r, h'))"
  by (simp add: ShiftRegisterCreate_def MAX_SIZEINOCTETS_def create_fields_def create_setup_def
      gpio_init_def gpio_set_dir_def gpio_put_def emit_def
      SHIFTREGISTER_CLOCKDELAY_US_def SHIFTREGISTER_LATCHDELAY_US_def)

lemma Create_null: "4 < unat w \<Longrightarrow> ShiftRegisterCreate t c di do l v w h = Some (None, h)"
  by (simp add: ShiftRegisterCreate_def MAX_SIZEINOCTETS_def)

lemma create_fields_sel [simp]:
  "Type (create_fields t c di do l v w) = t"
  "ClockGPIO (create_fields t c di do l v w) = c"
  "DataInGPIO (create_fields t c di do l v w) = di"
  "DataOutGPIO (create_fields t c di do l v w) = do"
  "LatchGPIO (create_fields t c di do l v w) = l"
  "SizeInOctets (create_fields t c di do l v w) = w"
  "bits_of (create_fields t c di do l v w) = unat w * 8"
  by (simp_all add: create_fields_def bits_of_def)


section \<open>Concrete values and the levels on one pin\<close>

lemma upt8: "[0..<8] = [0, 1, 2, 3, 4, 5, 6, 7 :: nat]"
  by code_simp

lemma rev_upt8: "rev [0..<8] = [7, 6, 5, 4, 3, 2, 1, 0 :: nat]"
  by code_simp

lemma msb_first_value_even8: "msb_first_value even 8 = 170"
  by code_simp

lemma sampled_toggling: "sampled toggling = even"
  by (rule ext) (simp add: sampled_def toggling_def)

lemma msb_first_value_A5: "msb_first_value (\<lambda>k. k \<in> {0, 2, 5, 7}) 8 = 165"
  by code_simp

lemma sampled_fed_A5: "sampled fed_A5 = (\<lambda>k. k \<in> {0, 2, 5, 7})"
  by (rule ext) (simp add: sampled_def fed_A5_def)

lemma driven_append: "driven p (xs @ ys) = driven p xs @ driven p ys"
  by (induction p xs rule: driven.induct) simp_all

lemma driven_concat_map: "driven p (concat (map f xs)) = concat (map (\<lambda>x. driven p (f x)) xs)"
  by (induction xs) (simp_all add: driven_append)

lemma driven_clock_pulse: "driven p (clock_pulse r) = (if ClockGPIO r = p then [True, False] else [])"
  by (simp add: clock_pulse_def)

lemma driven_latch_pulse: "driven p (latch_pulse r) = (if LatchGPIO r = p then [True, False] else [])"
  by (simp add: latch_pulse_def)

lemma length_concat_map_const:
  "(\<And>x. x \<in> set xs \<Longrightarrow> length (f x) = k) \<Longrightarrow> length (concat (map f xs)) = length xs * k"
  by (induction xs) simp_all

lemma driven_write_events:
  "driven (DataOutGPIO r) (out_steps r @ latch_pulse r) =
     concat (map (\<lambda>i. (bit (OutputBuffer r) i \<noteq> InvertOutput r)
                        # (if ClockGPIO r = DataOutGPIO r then [True, False] else []))
                 (rev [0..<bits_of r]))
     @ (if LatchGPIO r = DataOutGPIO r then [True, False] else [])"
  by (simp add: driven_append out_steps_def driven_concat_map driven_clock_pulse driven_latch_pulse)

lemma length_driven_write_events:
  "length (driven (DataOutGPIO r) (out_steps r @ latch_pulse r)) =
     bits_of r * (if ClockGPIO r = DataOutGPIO r then 3 else 1)
     + (if LatchGPIO r = DataOutGPIO r then 2 else 0)"
proof -
  have "length (concat (map (\<lambda>i. (bit (OutputBuffer r) i \<noteq> InvertOutput r)
                        # (if ClockGPIO r = DataOutGPIO r then [True, False] else []))
                 (rev [0..<bits_of r]))) =
        length (rev [0..<bits_of r]) * (if ClockGPIO r = DataOutGPIO r then 3 else 1)"
    by (rule length_concat_map_const) simp
  then show ?thesis
    unfolding driven_write_events by simp
qed

lemma not_bit_beyond: "unat (V :: u32) < 2 ^ n \<Longrightarrow> n \<le> j \<Longrightarrow> \<not> bit V j"
proof -
  assume a: "unat V < 2 ^ n" "n \<le> j"
  then have "(2::nat) ^ n \<le> 2 ^ j" by (simp add: power_increasing)
  with a have "unat V < 2 ^ j" by linarith
  then have "unat V div 2 ^ j = 0" by (rule div_less)
  then have "\<not> bit (unat V) j" by (simp add: bit_iff_odd)
  then show ?thesis by (simp add: bit_unsigned_iff)
qed

section \<open>Properties\<close>

text \<open>
  C1. Claimed: \<open>ShiftRegisterFill\<close> drives one constant level for all \<open>W * 8\<close> positions, then
  pulses the latch once, and the level is subject to \<open>InvertOutput\<close>, so that a fill with 0
  on an inverting register drives every bit high. The code does not look at \<open>InvertOutput\<close>:
  on a one-octet register with \<open>InvertOutput\<close> set, a fill with 0 writes low eight times
  and a fill with 1 writes high eight times.
\<close>

theorem ShiftRegisterFill_ignores_InvertOutput:
  "ShiftRegisterFill
     \<lparr>Type = 1, ClockGPIO = 2, DataInGPIO = 0, DataOutGPIO = 3, LatchGPIO = 4, SizeInOctets = 1,
      ClockDelayUS = 5, LatchDelayUS = 5, InputBuffer = 0, OutputBuffer = 0, InvertOutput = True\<rparr>
     0 quiet =
   Some (\<lparr>Type = 1, ClockGPIO = 2, DataInGPIO = 0, DataOutGPIO = 3, LatchGPIO = 4, SizeInOctets = 1,
          ClockDelayUS = 5, LatchDelayUS = 5, InputBuffer = 0, OutputBuffer = 0, InvertOutput = True\<rparr>,
         quiet\<lparr>trace :=
           concat (replicate 8 [GpioPut 3 False, GpioPut 2 True, SleepUs 5, GpioPut 2 False, SleepUs 5])
           @ [GpioPut 4 True, SleepUs 5, GpioPut 4 False]\<rparr>)
   \<and> ShiftRegisterFill
     \<lparr>Type = 1, ClockGPIO = 2, DataInGPIO = 0, DataOutGPIO = 3, LatchGPIO = 4, SizeInOctets = 1,
      ClockDelayUS = 5, LatchDelayUS = 5, InputBuffer = 0, OutputBuffer = 0, InvertOutput = True\<rparr>
     1 quiet =
   Some (\<lparr>Type = 1, ClockGPIO = 2, DataInGPIO = 0, DataOutGPIO = 3, LatchGPIO = 4, SizeInOctets = 1,
          ClockDelayUS = 5, LatchDelayUS = 5, InputBuffer = 0, OutputBuffer = 0, InvertOutput = True\<rparr>,
         quiet\<lparr>trace :=
           concat (replicate 8 [GpioPut 3 True, GpioPut 2 True, SleepUs 5, GpioPut 2 False, SleepUs 5])
           @ [GpioPut 4 True, SleepUs 5, GpioPut 4 False]\<rparr>)"
  by (simp add: ShiftRegisterFill_run bits_of_def clock_pulse_def latch_pulse_def emit_def quiet_def)

text \<open>
  C2. For a width of 1 to 4 octets, \<open>ShiftRegisterWrite\<close> writes to the data-out pin the bits
  of \<open>OutputBuffer\<close> from position \<open>W * 8 - 1\<close> down to 0, each as the bit value exclusive-or
  \<open>InvertOutput\<close>, each followed by exactly one clock pulse, and ends with exactly one latch
  pulse; nothing else is done, and the struct, \<open>OutputBuffer\<close> included, is returned unchanged.
\<close>

theorem ShiftRegisterWrite_msb_first:
  assumes "1 \<le> unat (SizeInOctets r)" and "unat (SizeInOctets r) \<le> 4"
  shows "ShiftRegisterWrite r h =
     Some (r, h\<lparr>trace := trace h
                @ concat (map (\<lambda>i. GpioPut (DataOutGPIO r) (bit (OutputBuffer r) i \<noteq> InvertOutput r)
                                     # clock_pulse r)
                              (rev [0..<unat (SizeInOctets r) * 8]))
                @ latch_pulse r\<rparr>)"
  using ShiftRegisterWrite_run [OF assms, of h]
  by (simp add: emit_def out_steps_def bits_of_def)

theorem ShiftRegisterWrite_msb_first_witness:
  "1 \<le> unat (1 :: u8) \<and> unat (1 :: u8) \<le> 4
   \<and> ShiftRegisterWrite
     \<lparr>Type = 1, ClockGPIO = 2, DataInGPIO = 0, DataOutGPIO = 3, LatchGPIO = 4, SizeInOctets = 1,
      ClockDelayUS = 5, LatchDelayUS = 5, InputBuffer = 0, OutputBuffer = 128, InvertOutput = False\<rparr>
     quiet =
   Some (\<lparr>Type = 1, ClockGPIO = 2, DataInGPIO = 0, DataOutGPIO = 3, LatchGPIO = 4, SizeInOctets = 1,
          ClockDelayUS = 5, LatchDelayUS = 5, InputBuffer = 0, OutputBuffer = 128, InvertOutput = False\<rparr>,
         quiet\<lparr>trace :=
           concat (map (\<lambda>v. [GpioPut 3 v, GpioPut 2 True, SleepUs 5, GpioPut 2 False, SleepUs 5])
                       [True, False, False, False, False, False, False, False])
           @ [GpioPut 4 True, SleepUs 5, GpioPut 4 False]\<rparr>)
   \<and> ShiftRegisterWrite
     \<lparr>Type = 1, ClockGPIO = 2, DataInGPIO = 0, DataOutGPIO = 3, LatchGPIO = 4, SizeInOctets = 1,
      ClockDelayUS = 5, LatchDelayUS = 5, InputBuffer = 0, OutputBuffer = 128, InvertOutput = True\<rparr>
     quiet =
   Some (\<lparr>Type = 1, ClockGPIO = 2, DataInGPIO = 0, DataOutGPIO = 3, LatchGPIO = 4, SizeInOctets = 1,
          ClockDelayUS = 5, LatchDelayUS = 5, InputBuffer = 0, OutputBuffer = 128, InvertOutput = True\<rparr>,
         quiet\<lparr>trace :=
           concat (map (\<lambda>v. [GpioPut 3 v, GpioPut 2 True, SleepUs 5, GpioPut 2 False, SleepUs 5])
                       [False, True, True, True, True, True, True, True])
           @ [GpioPut 4 True, SleepUs 5, GpioPut 4 False]\<rparr>)"
  using ShiftRegisterWrite_msb_first
    [of "\<lparr>Type = 1, ClockGPIO = 2, DataInGPIO = 0, DataOutGPIO = 3, LatchGPIO = 4, SizeInOctets = 1,
      ClockDelayUS = 5, LatchDelayUS = 5, InputBuffer = 0, OutputBuffer = 128, InvertOutput = False\<rparr>" quiet]
    ShiftRegisterWrite_msb_first
    [of "\<lparr>Type = 1, ClockGPIO = 2, DataInGPIO = 0, DataOutGPIO = 3, LatchGPIO = 4, SizeInOctets = 1,
      ClockDelayUS = 5, LatchDelayUS = 5, InputBuffer = 0, OutputBuffer = 128, InvertOutput = True\<rparr>" quiet]
  by (simp add: clock_pulse_def latch_pulse_def quiet_def rev_upt8)

text \<open>
  C3. For a width of 1 to 4 octets, \<open>ShiftRegisterRead\<close> raises the latch, then \<open>W * 8\<close>
  times samples data-in, enters the level into \<open>InputBuffer\<close> shifted left by one, and
  pulses the clock once, and at last lowers the latch. \<open>InputBuffer\<close>, cleared at the start,
  ends as the sum of \<open>b\<^sub>i * 2 ^ (W * 8 - 1 - i)\<close> over the sampled levels \<open>b\<^sub>i\<close>: the level
  sampled first is bit \<open>W * 8 - 1\<close>, the one sampled last is bit 0. (The source clears the
  buffer just before it raises the latch; the two steps touch different state, so their
  order cannot be told apart.)
\<close>

theorem ShiftRegisterRead_msb_first:
  assumes "1 \<le> unat (SizeInOctets r)" and "unat (SizeInOctets r) \<le> 4"
  shows "ShiftRegisterRead r h =
     Some (r\<lparr>InputBuffer := word_of_nat (msb_first_value (sampled h) (bits_of r))\<rparr>,
           h\<lparr>trace := trace h
                @ GpioPut (LatchGPIO r) True
                  # concat (map (\<lambda>i. GpioGet (DataInGPIO r) (sampled h i) # clock_pulse r) [0..<bits_of r])
                @ [GpioPut (LatchGPIO r) False],
              samples := samples h + bits_of r\<rparr>)
   \<and> unat (word_of_nat (msb_first_value (sampled h) (bits_of r)) :: u32) =
       (\<Sum>i<bits_of r. (if sampled h i then 1 else 0) * 2 ^ (bits_of r - 1 - i))
   \<and> (\<forall>j<bits_of r. bit (word_of_nat (msb_first_value (sampled h) (bits_of r)) :: u32) j
                      = sampled h (bits_of r - 1 - j))"
proof -
  have le31: "unat (SizeInOctets r) \<le> 31" and le32: "bits_of r \<le> 32"
    using assms by (simp_all add: bits_of_def)
  have "unat (word_of_nat (msb_first_value (sampled h) (bits_of r)) :: u32) =
        (\<Sum>i<bits_of r. (if sampled h i then 1 else 0) * 2 ^ (bits_of r - 1 - i))"
    unfolding unat_msb_first_value [OF le32] by (simp add: msb_first_value_def)
  moreover have "\<forall>j<bits_of r. bit (word_of_nat (msb_first_value (sampled h) (bits_of r)) :: u32) j
                      = sampled h (bits_of r - 1 - j)"
    by (simp add: bit_word_msb_first_value [OF le32])
  ultimately show ?thesis
    using ShiftRegisterRead_run [OF le31, of h]
    by (simp add: took_eq in_steps_def)
qed

theorem ShiftRegisterRead_msb_first_witness:
  "1 \<le> unat (1 :: u8) \<and> unat (1 :: u8) \<le> 4 \<and>
   ShiftRegisterRead
     \<lparr>Type = 0, ClockGPIO = 2, DataInGPIO = 5, DataOutGPIO = 0, LatchGPIO = 4, SizeInOctets = 1,
      ClockDelayUS = 5, LatchDelayUS = 5, InputBuffer = 77, OutputBuffer = 0, InvertOutput = False\<rparr>
     toggling =
   Some (\<lparr>Type = 0, ClockGPIO = 2, DataInGPIO = 5, DataOutGPIO = 0, LatchGPIO = 4, SizeInOctets = 1,
          ClockDelayUS = 5, LatchDelayUS = 5, InputBuffer = 170, OutputBuffer = 0, InvertOutput = False\<rparr>,
         toggling\<lparr>trace :=
           GpioPut 4 True
           # concat (map (\<lambda>v. [GpioGet 5 v, GpioPut 2 True, SleepUs 5, GpioPut 2 False, SleepUs 5])
                         [True, False, True, False, True, False, True, False])
           @ [GpioPut 4 False],
           samples := 8\<rparr>)"
  using ShiftRegisterRead_msb_first
    [of "\<lparr>Type = 0, ClockGPIO = 2, DataInGPIO = 5, DataOutGPIO = 0, LatchGPIO = 4, SizeInOctets = 1,
      ClockDelayUS = 5, LatchDelayUS = 5, InputBuffer = 77, OutputBuffer = 0, InvertOutput = False\<rparr>" toggling]
  by (simp add: bits_of_def sampled_toggling msb_first_value_even8 upt8 clock_pulse_def)
     (simp add: toggling_def)

text \<open>
  C4. For a width of 1 to 4 octets, \<open>ShiftRegisterReadWrite\<close> makes exactly these SDK
  calls, in this order: the \<open>W * 8\<close> drive-then-clock steps of \<open>OutputBuffer\<close>, most
  significant bit first and with \<open>InvertOutput\<close> applied; one write raising the latch; the
  \<open>W * 8\<close> sample-then-clock steps that fill the cleared \<open>InputBuffer\<close> most significant bit
  first; one write lowering the latch.
\<close>

theorem ShiftRegisterReadWrite_sequence:
  assumes "1 \<le> unat (SizeInOctets r)" and "unat (SizeInOctets r) \<le> 4"
  shows "ShiftRegisterReadWrite r h =
     Some (r\<lparr>InputBuffer := word_of_nat (msb_first_value (sampled h) (bits_of r))\<rparr>,
           h\<lparr>trace := trace h
                @ concat (map (\<lambda>i. GpioPut (DataOutGPIO r) (bit (OutputBuffer r) i \<noteq> InvertOutput r)
                                     # clock_pulse r)
                              (rev [0..<bits_of r]))
                @ GpioPut (LatchGPIO r) True
                  # concat (map (\<lambda>i. GpioGet (DataInGPIO r) (sampled h i) # clock_pulse r) [0..<bits_of r])
                @ [GpioPut (LatchGPIO r) False],
              samples := samples h + bits_of r\<rparr>)"
  using ShiftRegisterReadWrite_run [OF assms, of h]
  by (simp add: took_eq in_steps_def out_steps_def)

theorem ShiftRegisterReadWrite_sequence_witness:
  "1 \<le> unat (1 :: u8) \<and> unat (1 :: u8) \<le> 4 \<and>
   ShiftRegisterReadWrite
     \<lparr>Type = 2, ClockGPIO = 2, DataInGPIO = 5, DataOutGPIO = 3, LatchGPIO = 4, SizeInOctets = 1,
      ClockDelayUS = 5, LatchDelayUS = 5, InputBuffer = 77, OutputBuffer = 128, InvertOutput = True\<rparr>
     toggling =
   Some (\<lparr>Type = 2, ClockGPIO = 2, DataInGPIO = 5, DataOutGPIO = 3, LatchGPIO = 4, SizeInOctets = 1,
          ClockDelayUS = 5, LatchDelayUS = 5, InputBuffer = 170, OutputBuffer = 128, InvertOutput = True\<rparr>,
         toggling\<lparr>trace :=
           concat (map (\<lambda>v. [GpioPut 3 v, GpioPut 2 True, SleepUs 5, GpioPut 2 False, SleepUs 5])
                       [False, True, True, True, True, True, True, True])
           @ GpioPut 4 True
           # concat (map (\<lambda>v. [GpioGet 5 v, GpioPut 2 True, SleepUs 5, GpioPut 2 False, SleepUs 5])
                         [True, False, True, False, True, False, True, False])
           @ [GpioPut 4 False],
           samples := 8\<rparr>)"
  using ShiftRegisterReadWrite_sequence
    [of "\<lparr>Type = 2, ClockGPIO = 2, DataInGPIO = 5, DataOutGPIO = 3, LatchGPIO = 4, SizeInOctets = 1,
      ClockDelayUS = 5, LatchDelayUS = 5, InputBuffer = 77, OutputBuffer = 128, InvertOutput = True\<rparr>" toggling]
  by (simp add: bits_of_def sampled_toggling msb_first_value_even8 upt8 rev_upt8 clock_pulse_def)
     (simp add: toggling_def)

text \<open>
  C5. Loopback. Take a register of 1 to 4 octets with \<open>InvertOutput\<close> false and an
  \<open>OutputBuffer\<close> that fits in \<open>W * 8\<close> bits. If the levels that \<open>ShiftRegisterWrite\<close>
  wrote to the data-out pin are, in the same order, the levels that a following
  \<open>ShiftRegisterRead\<close> samples, then the read returns with \<open>InputBuffer\<close> equal to
  \<open>OutputBuffer\<close>.
\<close>

theorem write_read_loopback:
  assumes "1 \<le> unat (SizeInOctets r)" and "unat (SizeInOctets r) \<le> 4"
    and "\<not> InvertOutput r"
    and "unat (OutputBuffer r) < 2 ^ bits_of r"
    and "ShiftRegisterWrite r h = Some (r1, h1)"
    and "map (sampled h2) [0..<bits_of r] = driven (DataOutGPIO r) (drop (length (trace h)) (trace h1))"
  shows "r1 = r \<and> (\<exists>h3. ShiftRegisterRead r1 h2 = Some (r\<lparr>InputBuffer := OutputBuffer r\<rparr>, h3))"
proof -
  let ?n = "bits_of r"
  have n: "0 < ?n" "?n \<le> 32" using assms(1,2) by (simp_all add: bits_of_def)
  from assms(5) ShiftRegisterWrite_run [OF assms(1,2), of h]
  have r1: "r1 = r" and h1: "h1 = emit (out_steps r @ latch_pulse r) h" by auto
  have dr: "drop (length (trace h)) (trace h1) = out_steps r @ latch_pulse r"
    by (simp add: h1 emit_def)
  from assms(6) have "length (driven (DataOutGPIO r) (out_steps r @ latch_pulse r)) = ?n"
    unfolding dr by (metis length_map length_upt diff_zero)
  then have pins: "ClockGPIO r \<noteq> DataOutGPIO r" "LatchGPIO r \<noteq> DataOutGPIO r"
    using n(1) unfolding length_driven_write_events by (auto split: if_splits)
  have "driven (DataOutGPIO r) (out_steps r @ latch_pulse r) = map (bit (OutputBuffer r)) (rev [0..<?n])"
    unfolding driven_write_events using pins assms(3) by simp
  with assms(6) have eq: "map (sampled h2) [0..<?n] = map (\<lambda>i. bit (OutputBuffer r) (?n - Suc i)) [0..<?n]"
    unfolding dr by (simp add: rev_upt_0)
  have s: "sampled h2 i = bit (OutputBuffer r) (?n - Suc i)" if "i < ?n" for i
    using eq that by (simp add: list_eq_iff_nth_eq)
  have "(word_of_nat (msb_first_value (sampled h2) ?n) :: u32) = OutputBuffer r"
  proof (rule bit_word_eqI)
    fix j
    show "bit (word_of_nat (msb_first_value (sampled h2) ?n) :: u32) j = bit (OutputBuffer r) j"
    proof (cases "j < ?n")
      case True
      then have "?n - 1 - j < ?n" "?n - Suc (?n - 1 - j) = j" by simp_all
      with True show ?thesis
        by (simp add: bit_word_msb_first_value [OF n(2)] s)
    next
      case False
      then show ?thesis
        using not_bit_beyond [OF assms(4), of j]
        by (simp add: bit_word_msb_first_value [OF n(2)])
    qed
  qed
  moreover have "unat (SizeInOctets r) \<le> 31" using assms(2) by simp
  ultimately show ?thesis
    by (simp add: r1 ShiftRegisterRead_run)
qed

theorem write_read_loopback_witness:
  "(1 \<le> unat (SizeInOctets (create_fields 1 2 0 3 4 165 1))
     \<and> unat (SizeInOctets (create_fields 1 2 0 3 4 165 1)) \<le> 4
     \<and> \<not> InvertOutput (create_fields 1 2 0 3 4 165 1)
     \<and> unat (OutputBuffer (create_fields 1 2 0 3 4 165 1)) < 2 ^ bits_of (create_fields 1 2 0 3 4 165 1))
   \<and> ShiftRegisterWrite (create_fields 1 2 0 3 4 165 1) quiet =
       Some (create_fields 1 2 0 3 4 165 1,
             emit (out_steps (create_fields 1 2 0 3 4 165 1) @ latch_pulse (create_fields 1 2 0 3 4 165 1)) quiet)
   \<and> driven 3 (drop (length (trace quiet))
         (trace (emit (out_steps (create_fields 1 2 0 3 4 165 1) @ latch_pulse (create_fields 1 2 0 3 4 165 1)) quiet)))
       = [True, False, True, False, False, True, False, True]
   \<and> map (sampled fed_A5) [0..<bits_of (create_fields 1 2 0 3 4 165 1)]
       = [True, False, True, False, False, True, False, True]
   \<and> (\<exists>h3. ShiftRegisterRead (create_fields 1 2 0 3 4 165 1) fed_A5 =
         Some ((create_fields 1 2 0 3 4 165 1)\<lparr>InputBuffer := 165\<rparr>, h3))"
proof -
  let ?r = "create_fields 1 2 0 3 4 165 1"
  let ?h1 = "emit (out_steps ?r @ latch_pulse ?r) quiet"
  have f: "DataOutGPIO ?r = 3" "OutputBuffer ?r = 165" "\<not> InvertOutput ?r"
    "ClockGPIO ?r = 2" "LatchGPIO ?r = 4" "bits_of ?r = 8"
    by (simp_all add: create_fields_def bits_of_def)
  have w: "1 \<le> unat (SizeInOctets ?r)" "unat (SizeInOctets ?r) \<le> 4"
    by simp_all
  have v: "unat (OutputBuffer ?r) < 2 ^ bits_of ?r"
    by (simp add: f)
  have wr: "ShiftRegisterWrite ?r quiet = Some (?r, ?h1)"
    by (rule ShiftRegisterWrite_run [OF w])
  have dr: "driven 3 (drop (length (trace quiet)) (trace ?h1)) =
            [True, False, True, False, False, True, False, True]"
    by (simp add: quiet_def emit_def out_steps_def f rev_upt8 clock_pulse_def latch_pulse_def)
  have sm: "map (sampled fed_A5) [0..<bits_of ?r] = [True, False, True, False, False, True, False, True]"
    by (simp add: f upt8 sampled_fed_A5)
  have "map (sampled fed_A5) [0..<bits_of ?r] =
        driven (DataOutGPIO ?r) (drop (length (trace quiet)) (trace ?h1))"
    unfolding sm f(1) dr ..
  from write_read_loopback [OF w f(3) v wr this]
  have "\<exists>h3. ShiftRegisterRead ?r fed_A5 = Some (?r\<lparr>InputBuffer := 165\<rparr>, h3)"
    by (simp add: f)
  with w f(3) v wr dr sm show ?thesis
    by blast
qed

text \<open>
  C6. \<open>ShiftRegisterCreate\<close> returns \<open>NULL\<close> exactly when the requested width exceeds 4
  octets, whatever the other arguments are: it returns an instance for each of the widths
  1, 2, 3 and 4, and \<open>NULL\<close> (with no SDK call made) for width 5. No other function of the
  driver returns a value that could report a failure.
\<close>

theorem ShiftRegisterCreate_null_iff:
  "((\<exists>h'. ShiftRegisterCreate t c di do l v w h = Some (None, h')) \<longleftrightarrow> 4 < unat w)
   \<and> (1 \<le> unat w \<and> unat w \<le> 4 \<longrightarrow> (\<exists>r h'. ShiftRegisterCreate t c di do l v w h = Some (Some r, h')))
   \<and> (w = 5 \<longrightarrow> ShiftRegisterCreate t c di do l v w h = Some (None, h))"
proof (intro conjI impI)
  show "(\<exists>h'. ShiftRegisterCreate t c di do l v w h = Some (None, h')) \<longleftrightarrow> 4 < unat w"
  proof (cases "4 < unat w")
    case True
    then show ?thesis by (simp add: Create_null)
  next
    case False
    then have "unat w \<le> 4" by simp
    then show ?thesis
      by (auto simp add: Create_unfold split: option.splits)
  qed
next
  assume "1 \<le> unat w \<and> unat w \<le> 4"
  then have w: "1 \<le> unat (SizeInOctets (create_fields t c di do l v w))"
    "unat (SizeInOctets (create_fields t c di do l v w)) \<le> 4" and le: "unat w \<le> 4"
    by simp_all
  from Update_returns [OF w, of "emit (create_setup c di do l) h"]
  show "\<exists>r h'. ShiftRegisterCreate t c di do l v w h = Some (Some r, h')"
    by (auto simp add: Create_unfold [OF le])
next
  assume "w = 5"
  then show "ShiftRegisterCreate t c di do l v w h = Some (None, h)"
    by (simp add: Create_null)
qed

theorem ShiftRegisterCreate_null_iff_witness:
  "(1 \<le> unat (4 :: u8) \<and> unat (4 :: u8) \<le> 4)
   \<and> (\<exists>r h'. ShiftRegisterCreate SHIFTREGISTER_HYBRID 2 5 3 4 0 4 quiet = Some (Some r, h'))
   \<and> 4 < unat (5 :: u8)
   \<and> ShiftRegisterCreate SHIFTREGISTER_HYBRID 2 5 3 4 0 5 quiet = Some (None, quiet)"
  using ShiftRegisterCreate_null_iff [where w = 4 and t = SHIFTREGISTER_HYBRID and c = 2 and di = 5
      and do = 3 and l = 4 and v = 0 and h = quiet]
    ShiftRegisterCreate_null_iff [where w = 5 and t = SHIFTREGISTER_HYBRID and c = 2 and di = 5
      and do = 3 and l = 4 and v = 0 and h = quiet]
  by simp


text \<open>
  C8. \<open>GC8BitInit\<close> calls \<open>ShiftRegisterCreate\<close> once, for an input register of one octet,
  and returns the struct it got with both delays set to 1; \<open>GC8BitPoll\<close> on that struct does
  exactly what one \<open>ShiftRegisterRead\<close> does and returns the low 8 bits of the
  \<open>InputBuffer\<close> read.
\<close>

theorem GC8Bit_init_poll:
  "\<exists>c h1. GC8BitInit clock din latch h = Some (c, h1)
     \<and> ShiftRegisterCreate SHIFTREGISTER_INPUT clock din 0 latch 0 1 h
         = Some (Some (c\<lparr>ClockDelayUS := SHIFTREGISTER_CLOCKDELAY_US,
                          LatchDelayUS := SHIFTREGISTER_LATCHDELAY_US\<rparr>), h1)
     \<and> Type c = SHIFTREGISTER_INPUT \<and> SizeInOctets c = 1
     \<and> ClockDelayUS c = 1 \<and> LatchDelayUS c = 1
     \<and> (\<forall>h2. \<exists>c' h3. ShiftRegisterRead c h2 = Some (c', h3)
                 \<and> GC8BitPoll c h2 = Some (ucast (InputBuffer c'), c', h3))"
proof -
  let ?f = "create_fields SHIFTREGISTER_INPUT clock din 0 latch 0 1"
  let ?h = "emit (create_setup clock din 0 latch) h"
  have le31: "unat (SizeInOctets ?f) \<le> 31" by simp
  obtain x h1 where rd: "ShiftRegisterRead ?f ?h = Some (?f\<lparr>InputBuffer := x\<rparr>, h1)"
    using ShiftRegisterRead_run [OF le31, of ?h] by blast
  let ?c = "?f\<lparr>InputBuffer := x, ClockDelayUS := 1, LatchDelayUS := 1\<rparr>"
  have cr: "ShiftRegisterCreate SHIFTREGISTER_INPUT clock din 0 latch 0 1 h
              = Some (Some (?f\<lparr>InputBuffer := x\<rparr>), h1)"
    by (simp add: Create_unfold Update_input rd)
  have init: "GC8BitInit clock din latch h = Some (?c, h1)"
    by (simp add: GC8BitInit_def cr GC8BIT_DELAY_def create_fields_def)
  have restore: "?c\<lparr>ClockDelayUS := SHIFTREGISTER_CLOCKDELAY_US,
                 LatchDelayUS := SHIFTREGISTER_LATCHDELAY_US\<rparr> = ?f\<lparr>InputBuffer := x\<rparr>"
    by (simp add: create_fields_def SHIFTREGISTER_CLOCKDELAY_US_def SHIFTREGISTER_LATCHDELAY_US_def)
  have ty: "Type ?c = SHIFTREGISTER_INPUT" "SizeInOctets ?c = 1" "ClockDelayUS ?c = 1" "LatchDelayUS ?c = 1"
    by (simp_all add: create_fields_def)
  have poll: "\<exists>c' h3. ShiftRegisterRead ?c h2 = Some (c', h3)
                 \<and> GC8BitPoll ?c h2 = Some (ucast (InputBuffer c'), c', h3)" for h2
  proof -
    have "unat (SizeInOctets ?c) \<le> 31" by (simp add: ty)
    from ShiftRegisterRead_run [OF this, of h2]
    obtain c' h3 where "ShiftRegisterRead ?c h2 = Some (c', h3)" by blast
    then show ?thesis
      by (simp add: GC8BitPoll_def Update_input ty)
  qed
  have cr': "ShiftRegisterCreate SHIFTREGISTER_INPUT clock din 0 latch 0 1 h
              = Some (Some (?c\<lparr>ClockDelayUS := SHIFTREGISTER_CLOCKDELAY_US,
                               LatchDelayUS := SHIFTREGISTER_LATCHDELAY_US\<rparr>), h1)"
    unfolding restore by (rule cr)
  show ?thesis
    using init cr' ty poll by blast
qed

theorem GC8Bit_init_poll_witness:
  "GC8BitInit 2 5 4 toggling =
     Some (\<lparr>Type = 0, ClockGPIO = 2, DataInGPIO = 5, DataOutGPIO = 0, LatchGPIO = 4,
            SizeInOctets = 1, ClockDelayUS = 1, LatchDelayUS = 1,
            InputBuffer = 170, OutputBuffer = 0, InvertOutput = False\<rparr>,
           toggling\<lparr>trace :=
             [GpioInit 2, GpioSetDir 2 GPIO_OUT, GpioInit 5, GpioSetDir 5 GPIO_IN,
              GpioInit 4, GpioSetDir 4 GPIO_OUT, GpioPut 4 False]
             @ GpioPut 4 True
             # concat (map (\<lambda>v. [GpioGet 5 v, GpioPut 2 True, SleepUs 5, GpioPut 2 False, SleepUs 5])
                           [True, False, True, False, True, False, True, False])
             @ [GpioPut 4 False],
             samples := 8\<rparr>)
   \<and> GC8BitPoll
       \<lparr>Type = 0, ClockGPIO = 2, DataInGPIO = 5, DataOutGPIO = 0, LatchGPIO = 4,
         SizeInOctets = 1, ClockDelayUS = 1, LatchDelayUS = 1,
         InputBuffer = 170, OutputBuffer = 0, InvertOutput = False\<rparr>
       (toggling\<lparr>trace :=
             [GpioInit 2, GpioSetDir 2 GPIO_OUT, GpioInit 5, GpioSetDir 5 GPIO_IN,
              GpioInit 4, GpioSetDir 4 GPIO_OUT, GpioPut 4 False]
             @ GpioPut 4 True
             # concat (map (\<lambda>v. [GpioGet 5 v, GpioPut 2 True, SleepUs 5, GpioPut 2 False, SleepUs 5])
                           [True, False, True, False, True, False, True, False])
             @ [GpioPut 4 False],
             samples := 8\<rparr>) =
     Some (170,
           \<lparr>Type = 0, ClockGPIO = 2, DataInGPIO = 5, DataOutGPIO = 0, LatchGPIO = 4,
            SizeInOctets = 1, ClockDelayUS = 1, LatchDelayUS = 1,
            InputBuffer = 170, OutputBuffer = 0, InvertOutput = False\<rparr>,
           toggling\<lparr>trace :=
             [GpioInit 2, GpioSetDir 2 GPIO_OUT, GpioInit 5, GpioSetDir 5 GPIO_IN,
              GpioInit 4, GpioSetDir 4 GPIO_OUT, GpioPut 4 False]
             @ GpioPut 4 True
             # concat (map (\<lambda>v. [GpioGet 5 v, GpioPut 2 True, SleepUs 5, GpioPut 2 False, SleepUs 5])
                           [True, False, True, False, True, False, True, False])
             @ [GpioPut 4 False]
             @ GpioPut 4 True
             # concat (map (\<lambda>v. [GpioGet 5 v, GpioPut 2 True, SleepUs 1, GpioPut 2 False, SleepUs 1])
                           [True, False, True, False, True, False, True, False])
             @ [GpioPut 4 False],
             samples := 16\<rparr>)"
proof -
  let ?C = "\<lparr>Type = 0, ClockGPIO = 2, DataInGPIO = 5, DataOutGPIO = 0, LatchGPIO = 4,
            SizeInOctets = 1, ClockDelayUS = 1, LatchDelayUS = 1,
            InputBuffer = 170, OutputBuffer = 0, InvertOutput = False\<rparr>"
  let ?H1 = "toggling\<lparr>trace :=
             [GpioInit 2, GpioSetDir 2 GPIO_OUT, GpioInit 5, GpioSetDir 5 GPIO_IN,
              GpioInit 4, GpioSetDir 4 GPIO_OUT, GpioPut 4 False]
             @ GpioPut 4 True
             # concat (map (\<lambda>v. [GpioGet 5 v, GpioPut 2 True, SleepUs 5, GpioPut 2 False, SleepUs 5])
                           [True, False, True, False, True, False, True, False])
             @ [GpioPut 4 False],
             samples := 8\<rparr>"
  from GC8Bit_init_poll [of 2 5 4 toggling]
  obtain c h1 where init: "GC8BitInit 2 5 4 toggling = Some (c, h1)"
    and cr: "ShiftRegisterCreate SHIFTREGISTER_INPUT 2 5 0 4 0 1 toggling
         = Some (Some (c\<lparr>ClockDelayUS := SHIFTREGISTER_CLOCKDELAY_US,
                          LatchDelayUS := SHIFTREGISTER_LATCHDELAY_US\<rparr>), h1)"
    and d: "ClockDelayUS c = 1" "LatchDelayUS c = 1"
    and poll: "\<And>h2. \<exists>c' h3. ShiftRegisterRead c h2 = Some (c', h3)
                 \<and> GC8BitPoll c h2 = Some (ucast (InputBuffer c'), c', h3)"
    by blast
  have le31: "unat (SizeInOctets (create_fields SHIFTREGISTER_INPUT 2 5 0 4 0 1)) \<le> 31"
    by simp
  have "ShiftRegisterCreate SHIFTREGISTER_INPUT 2 5 0 4 0 1 toggling =
          Some (Some (?C\<lparr>ClockDelayUS := 5, LatchDelayUS := 5\<rparr>), ?H1)"
    unfolding Create_unfold [of 1, simplified] Update_input [OF create_fields_sel(1)]
      ShiftRegisterRead_run [OF le31]
    by (simp add: sampled_emit in_steps_emit took_emit sampled_toggling msb_first_value_even8
          in_steps_def upt8 took_eq create_setup_def)
       (simp add: create_fields_def clock_pulse_def SHIFTREGISTER_INPUT_def toggling_def emit_def)
  with cr have c5: "c\<lparr>ClockDelayUS := SHIFTREGISTER_CLOCKDELAY_US,
                       LatchDelayUS := SHIFTREGISTER_LATCHDELAY_US\<rparr>
                    = ?C\<lparr>ClockDelayUS := 5, LatchDelayUS := 5\<rparr>" and h1: "h1 = ?H1"
    by simp_all
  have "c = c\<lparr>ClockDelayUS := SHIFTREGISTER_CLOCKDELAY_US,
               LatchDelayUS := SHIFTREGISTER_LATCHDELAY_US\<rparr>\<lparr>ClockDelayUS := 1, LatchDelayUS := 1\<rparr>"
    using d by (cases c) simp
  then have c: "c = ?C"
    unfolding c5 by simp
  have le31': "unat (SizeInOctets ?C) \<le> 31" by simp
  have s: "sampled (toggling\<lparr>trace := es, samples := 8\<rparr>) = even" for es
    by (rule ext) (simp add: sampled_def toggling_def)
  have rd: "ShiftRegisterRead ?C ?H1 =
      Some (?C, toggling\<lparr>trace :=
             [GpioInit 2, GpioSetDir 2 GPIO_OUT, GpioInit 5, GpioSetDir 5 GPIO_IN,
              GpioInit 4, GpioSetDir 4 GPIO_OUT, GpioPut 4 False]
             @ GpioPut 4 True
             # concat (map (\<lambda>v. [GpioGet 5 v, GpioPut 2 True, SleepUs 5, GpioPut 2 False, SleepUs 5])
                           [True, False, True, False, True, False, True, False])
             @ [GpioPut 4 False]
             @ GpioPut 4 True
             # concat (map (\<lambda>v. [GpioGet 5 v, GpioPut 2 True, SleepUs 1, GpioPut 2 False, SleepUs 1])
                           [True, False, True, False, True, False, True, False])
             @ [GpioPut 4 False],
             samples := 16\<rparr>)"
    unfolding ShiftRegisterRead_run [OF le31']
    by (simp add: s msb_first_value_even8 in_steps_def upt8 took_eq bits_of_def clock_pulse_def)
  from poll [of ?H1] rd have "GC8BitPoll ?C ?H1 = Some (170, ?C,
        toggling\<lparr>trace :=
             [GpioInit 2, GpioSetDir 2 GPIO_OUT, GpioInit 5, GpioSetDir 5 GPIO_IN,
              GpioInit 4, GpioSetDir 4 GPIO_OUT, GpioPut 4 False]
             @ GpioPut 4 True
             # concat (map (\<lambda>v. [GpioGet 5 v, GpioPut 2 True, SleepUs 5, GpioPut 2 False, SleepUs 5])
                           [True, False, True, False, True, False, True, False])
             @ [GpioPut 4 False]
             @ GpioPut 4 True
             # concat (map (\<lambda>v. [GpioGet 5 v, GpioPut 2 True, SleepUs 1, GpioPut 2 False, SleepUs 1])
                           [True, False, True, False, True, False, True, False])
             @ [GpioPut 4 False],
             samples := 16\<rparr>)"
    unfolding c by auto
  with init show ?thesis
    unfolding c h1 by simp
qed

text \<open>
  C9. Whenever they return, \<open>ShiftRegisterWrite\<close> and \<open>ShiftRegisterFill\<close> return the struct
  they were given, and \<open>ShiftRegisterRead\<close> and \<open>ShiftRegisterReadWrite\<close> return it with no
  field but \<open>InputBuffer\<close> changed; for a width of 1 to 4 octets all four do return.
\<close>

theorem transfers_frame:
  "(ShiftRegisterWrite r h = Some (r', h') \<longrightarrow> r' = r)
   \<and> (ShiftRegisterFill r v h = Some (r', h') \<longrightarrow> r' = r)
   \<and> (ShiftRegisterRead r h = Some (r', h') \<longrightarrow> r' = r\<lparr>InputBuffer := InputBuffer r'\<rparr>)
   \<and> (ShiftRegisterReadWrite r h = Some (r', h') \<longrightarrow> r' = r\<lparr>InputBuffer := InputBuffer r'\<rparr>)
   \<and> (1 \<le> unat (SizeInOctets r) \<and> unat (SizeInOctets r) \<le> 4 \<longrightarrow>
        ShiftRegisterWrite r h \<noteq> None \<and> ShiftRegisterFill r v h \<noteq> None
        \<and> ShiftRegisterRead r h \<noteq> None \<and> ShiftRegisterReadWrite r h \<noteq> None)"
proof (intro conjI impI)
  assume w: "1 \<le> unat (SizeInOctets r) \<and> unat (SizeInOctets r) \<le> 4"
  then have le31: "unat (SizeInOctets r) \<le> 31" by simp
  from w show "ShiftRegisterWrite r h \<noteq> None" by (simp add: ShiftRegisterWrite_run)
  from le31 show "ShiftRegisterFill r v h \<noteq> None" by (simp add: ShiftRegisterFill_run)
  from le31 show "ShiftRegisterRead r h \<noteq> None" by (simp add: ShiftRegisterRead_run)
  from w show "ShiftRegisterReadWrite r h \<noteq> None" by (simp add: ShiftRegisterReadWrite_run)
qed (erule ShiftRegisterWrite_frame ShiftRegisterFill_frame ShiftRegisterRead_frame
      ShiftRegisterReadWrite_frame)+

theorem transfers_frame_witness:
  "(1 \<le> unat (SizeInOctets (create_fields 2 2 5 3 4 128 1))
     \<and> unat (SizeInOctets (create_fields 2 2 5 3 4 128 1)) \<le> 4)
   \<and> (\<exists>h'. ShiftRegisterWrite (create_fields 2 2 5 3 4 128 1) toggling
              = Some (create_fields 2 2 5 3 4 128 1, h'))
   \<and> (\<exists>h'. ShiftRegisterFill (create_fields 2 2 5 3 4 128 1) 1 toggling
              = Some (create_fields 2 2 5 3 4 128 1, h'))
   \<and> (\<exists>x h'. ShiftRegisterRead (create_fields 2 2 5 3 4 128 1) toggling
              = Some ((create_fields 2 2 5 3 4 128 1)\<lparr>InputBuffer := x\<rparr>, h'))
   \<and> (\<exists>x h'. ShiftRegisterReadWrite (create_fields 2 2 5 3 4 128 1) toggling
              = Some ((create_fields 2 2 5 3 4 128 1)\<lparr>InputBuffer := x\<rparr>, h'))"
proof -
  let ?r = "create_fields 2 2 5 3 4 128 1"
  have w: "1 \<le> unat (SizeInOctets ?r) \<and> unat (SizeInOctets ?r) \<le> 4"
    by simp
  have ret: "ShiftRegisterWrite ?r toggling \<noteq> None" "ShiftRegisterFill ?r 1 toggling \<noteq> None"
    "ShiftRegisterRead ?r toggling \<noteq> None" "ShiftRegisterReadWrite ?r toggling \<noteq> None"
    using transfers_frame [of ?r toggling _ _ 1] w by blast+
  from ret(1) obtain r1 h1 where 1: "ShiftRegisterWrite ?r toggling = Some (r1, h1)" by auto
  from ret(2) obtain r2 h2 where 2: "ShiftRegisterFill ?r 1 toggling = Some (r2, h2)" by auto
  from ret(3) obtain r3 h3 where 3: "ShiftRegisterRead ?r toggling = Some (r3, h3)" by auto
  from ret(4) obtain r4 h4 where 4: "ShiftRegisterReadWrite ?r toggling = Some (r4, h4)" by auto
  from 1 transfers_frame [of ?r toggling r1 h1 1] have "r1 = ?r" by blast
  moreover from 2 transfers_frame [of ?r toggling r2 h2 1] have "r2 = ?r" by blast
  moreover from 3 transfers_frame [of ?r toggling r3 h3 1]
  have "r3 = ?r\<lparr>InputBuffer := InputBuffer r3\<rparr>" by blast
  moreover from 4 transfers_frame [of ?r toggling r4 h4 1]
  have "r4 = ?r\<lparr>InputBuffer := InputBuffer r4\<rparr>" by blast
  ultimately show ?thesis
    using w 1 2 3 4 by metis
qed

text \<open>
  C10. With a type other than input (0), output (1) and hybrid (2), \<open>ShiftRegisterUpdate\<close>
  makes no SDK call and returns the struct as it was; \<open>ShiftRegisterCreate\<close> with such a
  type and a width of at most 4 still returns an instance, and the only SDK calls it has
  made are those of the pin set-up.
\<close>

theorem ShiftRegisterUpdate_unknown_type:
  "(Type r \<notin> {SHIFTREGISTER_INPUT, SHIFTREGISTER_OUTPUT, SHIFTREGISTER_HYBRID}
      \<longrightarrow> ShiftRegisterUpdate r h = Some (r, h))
   \<and> (t \<notin> {SHIFTREGISTER_INPUT, SHIFTREGISTER_OUTPUT, SHIFTREGISTER_HYBRID} \<and> unat w \<le> 4
      \<longrightarrow> ShiftRegisterCreate t c di do l v w h =
            Some (Some (create_fields t c di do l v w),
                  h\<lparr>trace := trace h @ create_setup c di do l\<rparr>))"
  by (simp add: Update_other Create_unfold emit_eq)

theorem ShiftRegisterUpdate_unknown_type_witness:
  "(3 :: u8) \<notin> {SHIFTREGISTER_INPUT, SHIFTREGISTER_OUTPUT, SHIFTREGISTER_HYBRID}
   \<and> unat (1 :: u8) \<le> 4
   \<and> ShiftRegisterUpdate (create_fields 3 2 5 3 4 0 1) quiet = Some (create_fields 3 2 5 3 4 0 1, quiet)
   \<and> ShiftRegisterCreate 3 2 5 3 4 0 1 quiet =
       Some (Some (create_fields 3 2 5 3 4 0 1),
             quiet\<lparr>trace := [GpioInit 2, GpioSetDir 2 GPIO_OUT, GpioInit 5, GpioSetDir 5 GPIO_IN,
                               GpioInit 3, GpioSetDir 3 GPIO_OUT, GpioPut 3 False,
                               GpioInit 4, GpioSetDir 4 GPIO_OUT, GpioPut 4 False]\<rparr>)"
  using ShiftRegisterUpdate_unknown_type [where r = "create_fields 3 2 5 3 4 0 1" and h = quiet
      and t = 3 and w = 1 and c = 2 and di = 5 and do = 3 and l = 4 and v = 0]
  by (simp add: SHIFTREGISTER_INPUT_def SHIFTREGISTER_OUTPUT_def SHIFTREGISTER_HYBRID_def
      create_setup_def quiet_def)

end
